theory Spec2Isabelle
  imports Main "HOL-Library.AList"
begin

section \<open>TikTokService: the multi-tenant connection pool\<close>

text \<open>
  The service object of \<^verbatim>\<open>services/TikTokService.js\<close> keeps two JavaScript \<^verbatim>\<open>Map\<close>s:
  \<^verbatim>\<open>connections\<close> (username to \<^verbatim>\<open>{connection, lastActivity}\<close>) and \<^verbatim>\<open>roomClients\<close>
  (username to a number). A \<^verbatim>\<open>Map\<close> iterates in insertion order, \<^verbatim>\<open>set\<close> on a present key
  keeps the key's position and \<^verbatim>\<open>delete\<close> removes the key, so both are association lists
  handled with \<open>AList.update\<close> and \<open>AList.delete\<close>.

  An upstream \<^verbatim>\<open>WebcastPushConnection\<close> object is a handle (a natural number, allocated by
  \<^verbatim>\<open>new\<close>). What the service does to the outside world is recorded in two logs: the calls
  made on upstream handles, and the \<^verbatim>\<open>io.to(room).emit(name, payload)\<close> calls made on the
  Socket.io server. \<^verbatim>\<open>Date.now()\<close> is a parameter \<open>now\<close> (milliseconds) of each operation; one
  run of a synchronous function reads one value.
\<close>

subsection \<open>JavaScript's \<^verbatim>\<open>||\<close> on optional numbers and strings\<close>

text \<open>
  \<^verbatim>\<open>a || b\<close> is \<^verbatim>\<open>a\<close> when \<^verbatim>\<open>a\<close> is truthy and \<^verbatim>\<open>b\<close> otherwise. A field that is absent,
  \<^verbatim>\<open>undefined\<close> or \<^verbatim>\<open>null\<close> is \<open>None\<close>; the number \<^verbatim>\<open>0\<close> and the empty string are falsy too.
  Numeric fields carry integers (coin and click counts).
\<close>

definition js_or_num :: "int option \<Rightarrow> int \<Rightarrow> int" where
  "js_or_num a b = (case a of None \<Rightarrow> b | Some n \<Rightarrow> if n = 0 then b else n)"

definition js_or_str :: "string option \<Rightarrow> string \<Rightarrow> string" where
  "js_or_str a b = (case a of None \<Rightarrow> b | Some x \<Rightarrow> if x = [] then b else x)"

subsection \<open>Raw upstream payloads\<close>

record user =
  uniqueId :: "string option"
  nickname :: "string option"
  profilePictureUrl :: "string option"

record chat_data =
  chat_comment :: "string option"
  chat_uniqueId :: "string option"
  chat_nickname :: "string option"
  chat_profilePictureUrl :: "string option"

record like_data =
  like_likeCount :: "int option"
  like_totalLikeCount :: "int option"
  like_uniqueId :: "string option"
  like_nickname :: "string option"
  like_profilePictureUrl :: "string option"

record social_data =
  social_displayType :: "string option"
  social_uniqueId :: "string option"
  social_nickname :: "string option"
  social_profilePictureUrl :: "string option"

record gift_data =
  diamondCount :: "int option"
  giftValue :: "int option"
  giftName :: "string option"
  giftDetails_giftName :: "string option"
  repeatCount :: "int option"
  gift_uniqueId :: "string option"
  gift_nickname :: "string option"
  gift_profilePictureUrl :: "string option"

datatype raw_event =
    Chat chat_data
  | Like like_data
  | Social social_data
  | Gift gift_data
  | Connected "string option"
  | Disconnected
  | Error string

subsection \<open>Gift normalisation (the \<^verbatim>\<open>gift\<close> handler, lines 180 to 189)\<close>

text \<open>\<^verbatim>\<open>const giftValue = data.diamondCount || data.giftValue || 1;\<close>\<close>

definition resolve_giftValue :: "gift_data \<Rightarrow> int" where
  "resolve_giftValue data = js_or_num (diamondCount data) (js_or_num (giftValue data) 1)"

text \<open>
  \<^verbatim>\<open>let giftType = "small"; if (giftValue >= 100) giftType = "large";
  else if (giftValue >= 10) giftType = "medium";\<close>
\<close>

definition giftType_of :: "int \<Rightarrow> string" where
  "giftType_of v = (if v \<ge> 100 then ''large'' else if v \<ge> 10 then ''medium'' else ''small'')"

definition resolve_giftName :: "gift_data \<Rightarrow> string" where
  "resolve_giftName data =
     js_or_str (giftName data) (js_or_str (giftDetails_giftName data) ''Unknown Gift'')"

definition resolve_repeatCount :: "gift_data \<Rightarrow> int" where
  "resolve_repeatCount data = js_or_num (repeatCount data) 1"

text \<open>
  The resolution as the specification words it: the first field that is not null wins, and
  an unknown or zero value becomes 1.
\<close>

definition spec_resolve_giftValue :: "gift_data \<Rightarrow> int" where
  "spec_resolve_giftValue data =
     (let v = (case diamondCount data of
                 Some d \<Rightarrow> Some d
               | None \<Rightarrow> giftValue data)
      in case v of None \<Rightarrow> 1 | Some n \<Rightarrow> if n = 0 then 1 else n)"

subsection \<open>Strings: \<^verbatim>\<open>toLowerCase\<close> and \<^verbatim>\<open>trim\<close>\<close>

text \<open>
  A \<open>char\<close> is a byte, so the two string functions are modelled on ASCII: \<^verbatim>\<open>toLowerCase\<close>
  maps A..Z to a..z, and \<^verbatim>\<open>trim\<close> strips space, tab, line feed, vertical tab, form feed and
  carriage return from both ends. JavaScript also lower-cases letters outside ASCII and
  strips Unicode white space such as U+00A0; the model leaves those bytes as they are. The
  difference can only change the comment text of a chat event and whether a chat command is
  recognised, never the room of an emit.
\<close>

definition toLowerCase_char :: "char \<Rightarrow> char" where
  "toLowerCase_char c =
     (let n = (of_char c :: nat) in if 65 \<le> n \<and> n \<le> 90 then char_of (n + 32) else c)"

definition toLowerCase :: "string \<Rightarrow> string" where
  "toLowerCase cs = map toLowerCase_char cs"

definition is_space :: "char \<Rightarrow> bool" where
  "is_space c = (let n = (of_char c :: nat) in n = 32 \<or> (9 \<le> n \<and> n \<le> 13))"

definition trim :: "string \<Rightarrow> string" where
  "trim cs = rev (dropWhile is_space (rev (dropWhile is_space cs)))"

subsection \<open>The state of the service and of its collaborators\<close>

record entry =
  connection :: nat
  lastActivity :: int

text \<open>
  What happens at an upstream handle: \<^verbatim>\<open>connection.connect()\<close> was called,
  \<^verbatim>\<open>connection.disconnect()\<close> was called, and the promise of \<^verbatim>\<open>connect()\<close> resolved or
  rejected (the point where the \<^verbatim>\<open>await\<close> of line 245 resumes).
\<close>

datatype upstream_op = ConnectCalled | DisconnectCalled | ConnectResolved | ConnectRejected

datatype payload =
    ChatPayload user string chat_data int
  | PlayerJoinPayload user int
  | PlayerAttackPayload user int int
  | LikePayload user "int option" "int option" int
  | SharePayload user int
  | GiftPayload user string int int string gift_data int
  | GiftReceivedPayload user string int int string int
  | ConnectedPayload "string option" int
  | DisconnectedPayload int
  | ErrorPayload string int

text \<open>One \<^verbatim>\<open>io.to(room).emit(name, payload)\<close> call.\<close>

record emit =
  room :: string
  event_name :: string
  event_payload :: payload

text \<open>
  \<open>connections\<close> and \<open>roomClients\<close> are the two fields of the service. \<open>next_handle\<close> is the
  allocator of \<^verbatim>\<open>new WebcastPushConnection\<close>; \<open>listeners\<close> records, for a handle, the
  \<^verbatim>\<open>username\<close> that the handlers installed on it by \<^verbatim>\<open>connection.on\<close> have captured;
  \<open>upstream\<close> and \<open>emitted\<close> are the two logs, oldest first.
\<close>

record service =
  connections :: "(string \<times> entry) list"
  roomClients :: "(string \<times> int) list"
  next_handle :: nat
  listeners :: "(nat \<times> string) list"
  upstream :: "(nat \<times> upstream_op) list"
  emitted :: "emit list"

text \<open>The constructor: two empty maps; the cleanup timer fires every \<open>cleanupIntervalMs\<close>.\<close>

definition new_service :: service where
  "new_service =
     \<lparr>connections = [], roomClients = [], next_handle = 0, listeners = [],
      upstream = [], emitted = []\<rparr>"

definition cleanupIntervalMs :: int where
  "cleanupIntervalMs = 60000"

definition handshakes :: "service \<Rightarrow> nat" where
  "handshakes s = length (filter (\<lambda>c. snd c = ConnectCalled) (upstream s))"

subsection \<open>The Socket.io server: rooms and delivery\<close>

text \<open>
  The transport is a collaborator: a membership relation of (socket id, room) pairs, built
  by \<^verbatim>\<open>socket.join\<close> and \<^verbatim>\<open>socket.leave\<close>. \<^verbatim>\<open>io.to(room).emit\<close> reaches the sockets that are
  members of \<open>room\<close>.
\<close>

type_synonym membership = "(string \<times> string) list"

definition socket_join :: "string \<Rightarrow> string \<Rightarrow> membership \<Rightarrow> membership" where
  "socket_join sid r m = (if (sid, r) \<in> set m then m else m @ [(sid, r)])"

definition socket_leave :: "string \<Rightarrow> string \<Rightarrow> membership \<Rightarrow> membership" where
  "socket_leave sid r m = filter (\<lambda>p. p \<noteq> (sid, r)) m"

definition recipients :: "membership \<Rightarrow> string \<Rightarrow> string list" where
  "recipients m r = map fst (filter (\<lambda>p. snd p = r) m)"

definition only_joined :: "membership \<Rightarrow> string \<Rightarrow> string \<Rightarrow> bool" where
  "only_joined m sid r = ((sid, r) \<in> set m \<and> list_all (\<lambda>p. fst p = sid \<longrightarrow> snd p = r) m)"

definition delivered :: "membership \<Rightarrow> emit list \<Rightarrow> (string \<times> emit) list" where
  "delivered m es = concat (map (\<lambda>e. map (\<lambda>sid. (sid, e)) (recipients m (room e))) es)"

definition io_emit :: "string \<Rightarrow> string \<Rightarrow> payload \<Rightarrow> service \<Rightarrow> service" where
  "io_emit r name p s =
     s\<lparr>emitted := emitted s @ [\<lparr>room = r, event_name = name, event_payload = p\<rparr>]\<rparr>"

subsection \<open>The subscriber counts (lines 288 to 313)\<close>

definition getClientCount :: "string \<Rightarrow> service \<Rightarrow> int" where
  "getClientCount username s = js_or_num (map_of (roomClients s) username) 0"

definition addClientToRoom :: "string \<Rightarrow> service \<Rightarrow> service" where
  "addClientToRoom username s =
     (let count = js_or_num (map_of (roomClients s) username) 0
      in s\<lparr>roomClients := AList.update username (count + 1) (roomClients s)\<rparr>)"

definition removeClientFromRoom :: "string \<Rightarrow> service \<Rightarrow> service" where
  "removeClientFromRoom username s =
     (let count = js_or_num (map_of (roomClients s) username) 0
      in if count > 0
         then s\<lparr>roomClients := AList.update username (count - 1) (roomClients s)\<rparr>
         else s)"

datatype registry_op = Increment string | Decrement string

fun apply_registry_op :: "service \<Rightarrow> registry_op \<Rightarrow> service" where
  "apply_registry_op s (Increment t) = addClientToRoom t s"
| "apply_registry_op s (Decrement t) = removeClientFromRoom t s"

subsection \<open>\<^verbatim>\<open>updateActivity\<close> and \<^verbatim>\<open>disconnect\<close> (lines 261 to 282)\<close>

definition updateActivity :: "string \<Rightarrow> int \<Rightarrow> service \<Rightarrow> service" where
  "updateActivity username now s =
     (case map_of (connections s) username of
        Some e \<Rightarrow> s\<lparr>connections := AList.update username (e\<lparr>lastActivity := now\<rparr>) (connections s)\<rparr>
      | None \<Rightarrow> s)"

datatype exn = TeardownError

text \<open>
  \<^verbatim>\<open>connection.disconnect()\<close> belongs to the upstream library. The call is logged; whether it
  throws is decided by \<open>throws\<close>, a parameter of the model.
\<close>

definition connection_disconnect :: "(nat \<Rightarrow> bool) \<Rightarrow> nat \<Rightarrow> service \<Rightarrow> (exn + unit) \<times> service" where
  "connection_disconnect throws h s =
     (if throws h then Inl TeardownError else Inr (),
      s\<lparr>upstream := upstream s @ [(h, DisconnectCalled)]\<rparr>)"

text \<open>
  The result is \<open>Inl\<close> when \<^verbatim>\<open>disconnect\<close> itself throws. The \<^verbatim>\<open>try\<close>/\<^verbatim>\<open>catch\<close> around the
  upstream call has an empty handler, so both outcomes of the call continue at
  \<^verbatim>\<open>this.connections.delete(username)\<close>.
\<close>

definition disconnect :: "(nat \<Rightarrow> bool) \<Rightarrow> string \<Rightarrow> service \<Rightarrow> exn + service" where
  "disconnect throws username s =
     (case map_of (connections s) username of
        Some e \<Rightarrow>
          (case connection_disconnect throws (connection e) s of
             (Inl ex, s1) \<Rightarrow> Inr (s1\<lparr>connections := AList.delete username (connections s1)\<rparr>)
           | (Inr u, s1) \<Rightarrow> Inr (s1\<lparr>connections := AList.delete username (connections s1)\<rparr>))
      | None \<Rightarrow> Inr s)"

subsection \<open>The upstream event handlers (lines 88 to 242)\<close>

text \<open>
  Each handler is a closure over \<^verbatim>\<open>username\<close> and \<^verbatim>\<open>io\<close>. \<open>rnd\<close> is the value of
  \<^verbatim>\<open>Math.floor(Math.random() * 10)\<close>.
\<close>

definition on_chat :: "string \<Rightarrow> chat_data \<Rightarrow> int \<Rightarrow> int \<Rightarrow> service \<Rightarrow> service" where
  "on_chat username data now rnd s =
     (let message = (case chat_comment data of None \<Rightarrow> [] | Some c \<Rightarrow> trim (toLowerCase c));
          usr = \<lparr>uniqueId = chat_uniqueId data, nickname = chat_nickname data,
                 profilePictureUrl = chat_profilePictureUrl data\<rparr>;
          s1 = updateActivity username now s;
          s2 = io_emit username ''tiktok_chat'' (ChatPayload usr message data now) s1;
          s3 = (if message = ''join'' \<or> message = ''thamgia''
                then io_emit username ''player_join'' (PlayerJoinPayload usr now) s2
                else s2);
          s4 = (if message = ''hit'' \<or> message = ''danh'' \<or> message = ''attack''
                then io_emit username ''player_attack'' (PlayerAttackPayload usr (rnd + 5) now) s3
                else s3)
      in s4)"

definition on_like :: "string \<Rightarrow> like_data \<Rightarrow> int \<Rightarrow> service \<Rightarrow> service" where
  "on_like username data now s =
     (let usr = \<lparr>uniqueId = like_uniqueId data, nickname = like_nickname data,
                 profilePictureUrl = like_profilePictureUrl data\<rparr>;
          s1 = updateActivity username now s
      in io_emit username ''tiktok_like''
           (LikePayload usr (like_likeCount data) (like_totalLikeCount data) now) s1)"

definition on_social :: "string \<Rightarrow> social_data \<Rightarrow> int \<Rightarrow> service \<Rightarrow> service" where
  "on_social username data now s =
     (if social_displayType data = Some ''pm_mt_msg_viewer_share''
      then (let usr = \<lparr>uniqueId = social_uniqueId data, nickname = social_nickname data,
                       profilePictureUrl = social_profilePictureUrl data\<rparr>;
                s1 = updateActivity username now s
            in io_emit username ''tiktok_share'' (SharePayload usr now) s1)
      else s)"

definition on_gift :: "string \<Rightarrow> gift_data \<Rightarrow> int \<Rightarrow> service \<Rightarrow> service" where
  "on_gift username data now s =
     (let usr = \<lparr>uniqueId = gift_uniqueId data, nickname = gift_nickname data,
                 profilePictureUrl = gift_profilePictureUrl data\<rparr>;
          s1 = updateActivity username now s;
          gv = resolve_giftValue data;
          gn = resolve_giftName data;
          rc = resolve_repeatCount data;
          gt = giftType_of gv;
          s2 = io_emit username ''tiktok_gift'' (GiftPayload usr gn gv rc gt data now) s1
      in io_emit username ''gift_received'' (GiftReceivedPayload usr gn gv rc gt now) s2)"

definition on_connected :: "string \<Rightarrow> string option \<Rightarrow> int \<Rightarrow> service \<Rightarrow> service" where
  "on_connected username roomId now s =
     io_emit username ''tiktok_connected'' (ConnectedPayload roomId now) s"

definition on_disconnected :: "string \<Rightarrow> int \<Rightarrow> service \<Rightarrow> service" where
  "on_disconnected username now s =
     (let s1 = io_emit username ''tiktok_disconnected'' (DisconnectedPayload now) s
      in s1\<lparr>connections := AList.delete username (connections s1)\<rparr>)"

definition on_error :: "string \<Rightarrow> string \<Rightarrow> int \<Rightarrow> service \<Rightarrow> service" where
  "on_error username msg now s = io_emit username ''tiktok_error'' (ErrorPayload msg now) s"

fun handle_event :: "string \<Rightarrow> raw_event \<Rightarrow> int \<Rightarrow> int \<Rightarrow> service \<Rightarrow> service" where
  "handle_event username (Chat data) now rnd s = on_chat username data now rnd s"
| "handle_event username (Like data) now rnd s = on_like username data now s"
| "handle_event username (Social data) now rnd s = on_social username data now s"
| "handle_event username (Gift data) now rnd s = on_gift username data now s"
| "handle_event username (Connected roomId) now rnd s = on_connected username roomId now s"
| "handle_event username Disconnected now rnd s = on_disconnected username now s"
| "handle_event username (Error msg) now rnd s = on_error username msg now s"

text \<open>
  The upstream library fires an event on handle \<open>h\<close>: the handlers installed on \<open>h\<close> run. A
  handle without handlers was not created by the service; nothing runs.
\<close>

definition upstream_fires :: "nat \<Rightarrow> raw_event \<Rightarrow> int \<Rightarrow> int \<Rightarrow> service \<Rightarrow> service" where
  "upstream_fires h ev now rnd s =
     (case map_of (listeners s) h of
        Some username \<Rightarrow> handle_event username ev now rnd s
      | None \<Rightarrow> s)"

subsection \<open>\<^verbatim>\<open>connect\<close> (lines 50 to 255)\<close>

text \<open>
  \<^verbatim>\<open>connect\<close> is an \<^verbatim>\<open>async\<close> function on a single-threaded event loop. It runs without
  interruption up to its only \<^verbatim>\<open>await\<close> (line 245), where other tasks may run, and resumes
  when the promise of \<^verbatim>\<open>connection.connect()\<close> settles. \<open>connect_begin\<close> is the part before
  the \<^verbatim>\<open>await\<close>: it either returns, or it is suspended on the handshake of a handle.
  \<open>connect_resume\<close> is the part after it: \<^verbatim>\<open>return true\<close>, or the \<^verbatim>\<open>catch\<close> block.
  The constructor of the upstream library and \<^verbatim>\<open>connection.on\<close> are taken to return
  normally (the caller passes a string), so the \<^verbatim>\<open>catch\<close> block is entered only by a
  rejected handshake.
\<close>

datatype connect_step = Returned bool | Awaiting nat

datatype handshake_outcome = Resolved | Rejected

definition connect_begin :: "string \<Rightarrow> int \<Rightarrow> service \<Rightarrow> connect_step \<times> service" where
  "connect_begin username now s =
     (case map_of (connections s) username of
        Some existing \<Rightarrow>
          (Returned True,
           s\<lparr>connections :=
               AList.update username (existing\<lparr>lastActivity := now\<rparr>) (connections s)\<rparr>)
      | None \<Rightarrow>
          (let h = next_handle s;
               s1 = s\<lparr>next_handle := Suc h\<rparr>;
               s2 = s1\<lparr>connections :=
                        AList.update username \<lparr>connection = h, lastActivity = now\<rparr>
                          (connections s1)\<rparr>;
               s3 = s2\<lparr>listeners := AList.update h username (listeners s2)\<rparr>;
               s4 = s3\<lparr>upstream := upstream s3 @ [(h, ConnectCalled)]\<rparr>
           in (Awaiting h, s4)))"

definition connect_resume :: "string \<Rightarrow> nat \<Rightarrow> handshake_outcome \<Rightarrow> service \<Rightarrow> bool \<times> service" where
  "connect_resume username h outcome s =
     (case outcome of
        Resolved \<Rightarrow> (True, s\<lparr>upstream := upstream s @ [(h, ConnectResolved)]\<rparr>)
      | Rejected \<Rightarrow>
          (let s1 = s\<lparr>upstream := upstream s @ [(h, ConnectRejected)]\<rparr>
           in (False, s1\<lparr>connections := AList.delete username (connections s1)\<rparr>)))"

text \<open>
  A call of \<^verbatim>\<open>connect\<close> during whose \<^verbatim>\<open>await\<close> no other task runs and the upstream fires
  no event. It is the sequential composition of the two halves and says nothing about what
  happens while the handshake is pending.
\<close>

definition connect :: "string \<Rightarrow> int \<Rightarrow> handshake_outcome \<Rightarrow> service \<Rightarrow> bool \<times> service" where
  "connect username now outcome s =
     (case connect_begin username now s of
        (Returned b, s1) \<Rightarrow> (b, s1)
      | (Awaiting h, s1) \<Rightarrow> connect_resume username h outcome s1)"

text \<open>
  The handlers are installed before \<^verbatim>\<open>connection.connect()\<close> is called (lines 88 to 242,
  then line 245), so the events that the upstream fires on the new handle while the
  handshake is pending are handled, one after the other, before \<^verbatim>\<open>connect\<close> resumes. Each
  event comes with the clock value and the random draw of its handler run.
\<close>

fun upstream_fires_all :: "nat \<Rightarrow> (raw_event \<times> int \<times> int) list \<Rightarrow> service \<Rightarrow> service" where
  "upstream_fires_all h [] s = s"
| "upstream_fires_all h ((ev, now, rnd) # rest) s =
     upstream_fires_all h rest (upstream_fires h ev now rnd s)"

definition connect_with_events ::
  "string \<Rightarrow> int \<Rightarrow> (raw_event \<times> int \<times> int) list \<Rightarrow> handshake_outcome \<Rightarrow> service
     \<Rightarrow> bool \<times> service" where
  "connect_with_events username now evs outcome s =
     (case connect_begin username now s of
        (Returned b, s1) \<Rightarrow> (b, s1)
      | (Awaiting h, s1) \<Rightarrow> connect_resume username h outcome (upstream_fires_all h evs s1))"

text \<open>
  A teardown of handle \<open>h\<close> that takes place after its handshake has resolved: a
  \<open>DisconnectCalled\<close> later in the log than \<open>ConnectResolved\<close>.
\<close>

definition torn_down_after_established :: "nat \<Rightarrow> (nat \<times> upstream_op) list \<Rightarrow> bool" where
  "torn_down_after_established h log =
     ((h, DisconnectCalled) \<in> set (dropWhile (\<lambda>c. c \<noteq> (h, ConnectResolved)) log))"

subsection \<open>\<^verbatim>\<open>checkInactiveConnections\<close> (lines 320 to 337)\<close>

definition TIMEOUT :: int where
  "TIMEOUT = 5 * 60 * 1000"

text \<open>
  The loop over \<^verbatim>\<open>this.connections.entries()\<close>. The body deletes at most the key being
  visited, so the iteration visits the entries present when the loop starts, in order.
\<close>

fun sweep :: "(nat \<Rightarrow> bool) \<Rightarrow> int \<Rightarrow> (string \<times> entry) list \<Rightarrow> service \<Rightarrow> exn + service" where
  "sweep throws now [] s = Inr s"
| "sweep throws now ((username, data) # rest) s =
     (let clientCount = getClientCount username s;
          timeSinceActivity = now - lastActivity data
      in if clientCount = 0 \<and> timeSinceActivity > TIMEOUT
         then (case disconnect throws username s of
                 Inl ex \<Rightarrow> Inl ex
               | Inr s1 \<Rightarrow> sweep throws now rest s1)
         else sweep throws now rest s)"

definition checkInactiveConnections :: "(nat \<Rightarrow> bool) \<Rightarrow> int \<Rightarrow> service \<Rightarrow> exn + service" where
  "checkInactiveConnections throws now s = sweep throws now (connections s) s"

text \<open>The entries a tick of the cleanup timer selects.\<close>

definition evictable :: "int \<Rightarrow> service \<Rightarrow> string \<times> entry \<Rightarrow> bool" where
  "evictable now s p = (getClientCount (fst p) s = 0 \<and> now - lastActivity (snd p) > TIMEOUT)"

subsection \<open>Predicates used in the statements\<close>

text \<open>Every stored subscriber count is at least 0.\<close>

definition counts_nonneg :: "service \<Rightarrow> bool" where
  "counts_nonneg s = list_all (\<lambda>p. 0 \<le> snd p) (roomClients s)"

text \<open>The emits a step appended to the log, and the property that all of them name one room.\<close>

definition new_emits :: "service \<Rightarrow> service \<Rightarrow> emit list" where
  "new_emits s s' = drop (length (emitted s)) (emitted s')"

definition emits_only_to :: "string \<Rightarrow> service \<Rightarrow> service \<Rightarrow> bool" where
  "emits_only_to r s s' =
     (take (length (emitted s)) (emitted s') = emitted s \<and>
      list_all (\<lambda>e. room e = r) (new_emits s s'))"

text \<open>The two extreme behaviours of the upstream \<^verbatim>\<open>disconnect()\<close>.\<close>

definition never_throws :: "nat \<Rightarrow> bool" where
  "never_throws h = False"

definition always_throws :: "nat \<Rightarrow> bool" where
  "always_throws h = True"

subsection \<open>Concrete scenarios\<close>

definition lion_gift :: gift_data where
  "lion_gift =
     \<lparr>diamondCount = Some 150, giftValue = None, giftName = Some ''Lion'',
      giftDetails_giftName = None, repeatCount = Some 1, gift_uniqueId = Some ''v1'',
      gift_nickname = Some ''Viewer'', gift_profilePictureUrl = None\<rparr>"

definition zero_diamond_gift :: gift_data where
  "zero_diamond_gift =
     \<lparr>diamondCount = Some 0, giftValue = Some 50, giftName = Some ''Rose'',
      giftDetails_giftName = None, repeatCount = Some 1, gift_uniqueId = Some ''v1'',
      gift_nickname = Some ''Viewer'', gift_profilePictureUrl = None\<rparr>"

text \<open>\<^verbatim>\<open>connect("alice")\<close> on a fresh service, suspended at its handshake.\<close>

definition alice_connecting :: service where
  "alice_connecting = snd (connect_begin ''alice'' 1000 new_service)"

text \<open>Then \<^verbatim>\<open>disconnect("alice")\<close> runs, and then the handshake resolves.\<close>

definition alice_disconnected :: service where
  "alice_disconnected = projr (disconnect never_throws ''alice'' alice_connecting)"

definition alice_resolved :: service where
  "alice_resolved = snd (connect_resume ''alice'' 0 Resolved alice_disconnected)"

text \<open>Two sockets, one in each of two rooms.\<close>

definition two_rooms :: membership where
  "two_rooms = socket_join ''sock2'' ''bob'' (socket_join ''sock1'' ''alice'' [])"

text \<open>
  Three pooled tenants at time 400000: alice idle for 400000 ms with no subscriber, bob idle
  as long with two subscribers, carol idle for exactly 300000 ms with no subscriber.
\<close>

definition three_tenants :: service where
  "three_tenants =
     \<lparr>connections = [(''alice'', \<lparr>connection = 0, lastActivity = 0\<rparr>),
                     (''bob'', \<lparr>connection = 1, lastActivity = 0\<rparr>),
                     (''carol'', \<lparr>connection = 2, lastActivity = 100000\<rparr>)],
      roomClients = [(''alice'', 0), (''bob'', 2)],
      next_handle = 3,
      listeners = [(0, ''alice''), (1, ''bob''), (2, ''carol'')],
      upstream = [],
      emitted = []\<rparr>"

subsection \<open>Reachable states\<close>

text \<open>
  The states the service can be in: the constructor's state, and any state that one of the
  tasks of the event loop produces from such a state.
\<close>

inductive reachable :: "service \<Rightarrow> bool" where
  reach_new: "reachable new_service"
| reach_connect_begin: "reachable s \<Longrightarrow> reachable (snd (connect_begin t now s))"
| reach_connect_resume: "reachable s \<Longrightarrow> reachable (snd (connect_resume t h outcome s))"
| reach_disconnect: "reachable s \<Longrightarrow> disconnect throws t s = Inr s' \<Longrightarrow> reachable s'"
| reach_fires: "reachable s \<Longrightarrow> reachable (upstream_fires h ev now rnd s)"
| reach_add: "reachable s \<Longrightarrow> reachable (addClientToRoom t s)"
| reach_remove: "reachable s \<Longrightarrow> reachable (removeClientFromRoom t s)"
| reach_tick: "reachable s \<Longrightarrow> checkInactiveConnections throws now s = Inr s' \<Longrightarrow> reachable s'"

text \<open>
  The pool has one entry per key, every handle with handlers was allocated, and the handle
  in the pool entry of a tenant carries handlers that have captured that tenant.
\<close>

definition pool_ok :: "service \<Rightarrow> bool" where
  "pool_ok s =
     (distinct (map fst (connections s)) \<and>
      list_all (\<lambda>p. fst p < next_handle s) (listeners s) \<and>
      list_all (\<lambda>p. map_of (listeners s) (connection (snd p)) = Some (fst p)) (connections s))"

section \<open>Properties\<close>

subsection \<open>Association lists\<close>

lemma set_update_cases: "p \<in> set (AList.update k v al) \<Longrightarrow> p = (k, v) \<or> p \<in> set al"
  by (induction al) (auto split: if_splits)

lemma map_of_delete_same: "map_of (AList.delete k al) k = None"
  by (simp add: delete_conv')

lemma map_of_delete_other: "u \<noteq> k \<Longrightarrow> map_of (AList.delete k al) u = map_of al u"
  by (simp add: delete_conv')

lemma filter_delete:
  "filter P (AList.delete k al) = filter (\<lambda>p. fst p \<noteq> k \<and> P p) al"
  by (induction al) auto

lemma filter_evicted_keys:
  assumes "distinct (map fst xs)"
  shows "filter (\<lambda>p. fst p \<notin> fst ` set (filter P xs)) xs = filter (\<lambda>p. \<not> P p) xs"
proof (rule filter_cong [OF refl])
  fix p assume p: "p \<in> set xs"
  show "(fst p \<notin> fst ` set (filter P xs)) = (\<not> P p)"
  proof
    assume "fst p \<notin> fst ` set (filter P xs)"
    then show "\<not> P p" using p by force
  next
    assume np: "\<not> P p"
    show "fst p \<notin> fst ` set (filter P xs)"
    proof
      assume "fst p \<in> fst ` set (filter P xs)"
      then obtain q where q: "q \<in> set xs" "P q" "fst q = fst p" by auto
      from assms p q(1) q(3) have "q = p"
        by (metis eq_key_imp_eq_value prod.collapse)
      with q(2) np show False by simp
    qed
  qed
qed

subsection \<open>The two halves of \<^verbatim>\<open>connect\<close>, and \<^verbatim>\<open>disconnect\<close>\<close>

lemma connect_begin_unseen:
  "map_of (connections s) t = None \<Longrightarrow>
   connect_begin t now s =
     (Awaiting (next_handle s),
      s\<lparr>next_handle := Suc (next_handle s),
        connections :=
          AList.update t \<lparr>connection = next_handle s, lastActivity = now\<rparr> (connections s),
        listeners := AList.update (next_handle s) t (listeners s),
        upstream := upstream s @ [(next_handle s, ConnectCalled)]\<rparr>)"
  by (simp add: connect_begin_def Let_def)

lemma connect_begin_seen:
  "map_of (connections s) t = Some e \<Longrightarrow>
   connect_begin t now s =
     (Returned True,
      s\<lparr>connections := AList.update t (e\<lparr>lastActivity := now\<rparr>) (connections s)\<rparr>)"
  by (simp add: connect_begin_def)

lemma disconnect_present:
  "map_of (connections s) t = Some e \<Longrightarrow>
   disconnect throws t s =
     Inr (s\<lparr>upstream := upstream s @ [(connection e, DisconnectCalled)],
           connections := AList.delete t (connections s)\<rparr>)"
  by (simp add: disconnect_def connection_disconnect_def)

lemma disconnect_absent:
  "map_of (connections s) t = None \<Longrightarrow> disconnect throws t s = Inr s"
  by (simp add: disconnect_def)

text \<open>
  The handlers installed on the handle that \<^verbatim>\<open>connect(t)\<close> creates have captured \<open>t\<close>, and
  the pool entry of \<open>t\<close> holds that handle.
\<close>

lemma connect_begin_installs_listeners:
  assumes "map_of (connections s) t = None"
  shows "map_of (listeners (snd (connect_begin t now s))) (next_handle s) = Some t"
    and "map_of (connections (snd (connect_begin t now s))) t
           = Some \<lparr>connection = next_handle s, lastActivity = now\<rparr>"
  by (simp_all add: connect_begin_unseen [OF assms] update_conv')

subsection \<open>The cleanup loop\<close>

lemma sweep_Cons:
  "sweep throws now ((k, e) # xs) s =
     (if evictable now s (k, e)
      then (case disconnect throws k s of
              Inl ex \<Rightarrow> Inl ex
            | Inr s1 \<Rightarrow> sweep throws now xs s1)
      else sweep throws now xs s)"
  by (simp add: evictable_def Let_def)

lemma sweep_result:
  "distinct (map fst xs) \<Longrightarrow> (\<forall>p\<in>set xs. map_of (connections s) (fst p) = Some (snd p)) \<Longrightarrow>
   sweep throws now xs s =
     Inr (s\<lparr>upstream := upstream s @
               map (\<lambda>p. (connection (snd p), DisconnectCalled)) (filter (evictable now s) xs),
           connections :=
               filter (\<lambda>p. fst p \<notin> fst ` set (filter (evictable now s) xs)) (connections s)\<rparr>)"
proof (induction xs arbitrary: s)
  case Nil
  then show ?case by simp
next
  case (Cons x xs)
  obtain k e where x: "x = (k, e)" by (cases x)
  have dist: "distinct (map fst xs)" and knot: "k \<notin> fst ` set xs"
    using Cons.prems(1) x by auto
  have ke: "map_of (connections s) k = Some e" using Cons.prems(2) x by simp
  show ?case
  proof (cases "evictable now s (k, e)")
    case False
    have "sweep throws now (x # xs) s = sweep throws now xs s"
      using False by (simp only: x sweep_Cons if_False)
    also have "\<dots> = Inr (s\<lparr>upstream := upstream s @
               map (\<lambda>p. (connection (snd p), DisconnectCalled)) (filter (evictable now s) xs),
           connections :=
               filter (\<lambda>p. fst p \<notin> fst ` set (filter (evictable now s) xs)) (connections s)\<rparr>)"
      using Cons.prems(2) by (intro Cons.IH [OF dist]) simp
    finally show ?thesis using False by (simp add: x)
  next
    case True
    let ?s1 = "s\<lparr>upstream := upstream s @ [(connection e, DisconnectCalled)],
                  connections := AList.delete k (connections s)\<rparr>"
    have ev: "evictable now ?s1 = evictable now s"
      by (rule ext) (simp add: evictable_def getClientCount_def)
    have pres: "\<forall>p\<in>set xs. map_of (connections ?s1) (fst p) = Some (snd p)"
      using Cons.prems(2) knot by (auto simp: delete_conv')
    have "sweep throws now (x # xs) s = sweep throws now xs ?s1"
      using True
      by (simp only: x sweep_Cons if_True) (simp add: disconnect_def connection_disconnect_def ke)
    also have "\<dots> = Inr (?s1\<lparr>upstream := upstream ?s1 @
               map (\<lambda>p. (connection (snd p), DisconnectCalled)) (filter (evictable now ?s1) xs),
           connections :=
               filter (\<lambda>p. fst p \<notin> fst ` set (filter (evictable now ?s1) xs))
                 (connections ?s1)\<rparr>)"
      by (rule Cons.IH [OF dist pres])
    also have "\<dots> = Inr (s\<lparr>upstream := upstream s @
               map (\<lambda>p. (connection (snd p), DisconnectCalled))
                 (filter (evictable now s) (x # xs)),
           connections :=
               filter (\<lambda>p. fst p \<notin> fst ` set (filter (evictable now s) (x # xs)))
                 (connections s)\<rparr>)"
      using True by (simp add: ev x filter_delete)
    finally show ?thesis .
  qed
qed

subsection \<open>Invariants of the reachable states\<close>

lemma pool_ok_new: "pool_ok new_service"
  by (simp add: pool_ok_def new_service_def)

lemma set_delete_subset: "set (AList.delete k al) \<subseteq> set al"
  by (auto simp: AList.delete_eq)

lemma pool_ok_same:
  "pool_ok s \<Longrightarrow> connections s' = connections s \<Longrightarrow> listeners s' = listeners s \<Longrightarrow>
   next_handle s' = next_handle s \<Longrightarrow> pool_ok s'"
  by (simp add: pool_ok_def)

lemma pool_ok_delete:
  "pool_ok s \<Longrightarrow> connections s' = AList.delete t (connections s) \<Longrightarrow>
   listeners s' = listeners s \<Longrightarrow> next_handle s' = next_handle s \<Longrightarrow> pool_ok s'"
  using set_delete_subset [of t "connections s"]
  by (auto simp: pool_ok_def list_all_iff distinct_delete)

lemma pool_ok_touch:
  assumes "pool_ok s" and "map_of (connections s) t = Some e"
  shows "pool_ok (s\<lparr>connections := AList.update t (e\<lparr>lastActivity := now\<rparr>) (connections s)\<rparr>)"
proof -
  have "map_of (listeners s) (connection e) = Some t"
    using assms by (auto simp: pool_ok_def list_all_iff dest: map_of_SomeD)
  then show ?thesis
    using assms(1) by (auto simp: pool_ok_def list_all_iff distinct_update dest!: set_update_cases)
qed

lemma pool_ok_connect_begin: "pool_ok s \<Longrightarrow> pool_ok (snd (connect_begin t now s))"
proof (cases "map_of (connections s) t")
  case None
  assume ok: "pool_ok s"
  have fresh: "map_of (listeners s) (next_handle s) = None"
  proof (cases "map_of (listeners s) (next_handle s)")
    case (Some u)
    then have "(next_handle s, u) \<in> set (listeners s)" by (rule map_of_SomeD)
    with ok show ?thesis by (auto simp: pool_ok_def list_all_iff)
  qed simp
  have old: "connection (snd p) \<noteq> next_handle s" if "p \<in> set (connections s)" for p
    using ok that fresh by (auto simp: pool_ok_def list_all_iff)
  show ?thesis
    using ok old
    by (auto simp: connect_begin_unseen [OF None] pool_ok_def list_all_iff distinct_update
          update_conv' less_Suc_eq dest!: set_update_cases)
next
  case (Some e)
  assume "pool_ok s"
  then show ?thesis by (simp add: connect_begin_seen [OF Some] pool_ok_touch [OF _ Some])
qed

lemma pool_ok_connect_resume: "pool_ok s \<Longrightarrow> pool_ok (snd (connect_resume t h outcome s))"
proof (cases outcome)
  case Resolved
  assume "pool_ok s"
  then show ?thesis by (rule pool_ok_same) (simp_all add: Resolved connect_resume_def)
next
  case Rejected
  assume "pool_ok s"
  then show ?thesis
    by (rule pool_ok_delete [where t = t]) (simp_all add: Rejected connect_resume_def Let_def)
qed

lemma pool_ok_disconnect:
  assumes "pool_ok s" and "disconnect throws t s = Inr s'"
  shows "pool_ok s'"
proof (cases "map_of (connections s) t")
  case None
  with assms show ?thesis by (simp add: disconnect_absent)
next
  case (Some e)
  from assms(2) have s': "s' = s\<lparr>upstream := upstream s @ [(connection e, DisconnectCalled)],
                                connections := AList.delete t (connections s)\<rparr>"
    by (simp add: disconnect_present [OF Some])
  from assms(1) show ?thesis
    by (rule pool_ok_delete [where t = t]) (simp_all add: s')
qed

lemma pool_ok_updateActivity: "pool_ok s \<Longrightarrow> pool_ok (updateActivity t now s)"
  by (simp add: updateActivity_def pool_ok_touch split: option.splits)

lemma pool_ok_io_emit [simp]: "pool_ok (io_emit r name p s) = pool_ok s"
  by (simp add: io_emit_def pool_ok_def)

lemma pool_ok_handle_event: "pool_ok s \<Longrightarrow> pool_ok (handle_event t ev now rnd s)"
proof (cases ev)
  case Disconnected
  assume "pool_ok s"
  then show ?thesis
    by (rule pool_ok_delete [where t = t])
       (simp_all add: Disconnected on_disconnected_def io_emit_def Let_def)
qed (simp_all add: on_chat_def on_like_def on_social_def on_gift_def on_connected_def
       on_error_def Let_def pool_ok_updateActivity)

lemma pool_ok_upstream_fires: "pool_ok s \<Longrightarrow> pool_ok (upstream_fires h ev now rnd s)"
  by (simp add: upstream_fires_def pool_ok_handle_event split: option.splits)

lemma pool_ok_sweep: "pool_ok s \<Longrightarrow> sweep throws now xs s = Inr s' \<Longrightarrow> pool_ok s'"
proof (induction xs arbitrary: s)
  case Nil
  then show ?case by simp
next
  case (Cons x xs)
  obtain k e where x: "x = (k, e)" by (cases x)
  show ?case
  proof (cases "evictable now s (k, e)")
    case True
    have "(case disconnect throws k s of
             Inl ex \<Rightarrow> Inl ex
           | Inr s1 \<Rightarrow> sweep throws now xs s1) = Inr s'"
      using Cons.prems(2) True unfolding x sweep_Cons by simp
    then obtain s1 where d: "disconnect throws k s = Inr s1"
      and r: "sweep throws now xs s1 = Inr s'"
      by (cases "disconnect throws k s") simp_all
    from pool_ok_disconnect [OF Cons.prems(1) d] r show ?thesis by (rule Cons.IH)
  next
    case False
    have "sweep throws now xs s = Inr s'"
      using Cons.prems(2) False unfolding x sweep_Cons by simp
    with Cons.prems(1) show ?thesis by (rule Cons.IH)
  qed
qed

text \<open>
  Every reachable state has one pool entry per key, and the handle in the pool entry of a
  tenant carries the handlers that have captured that tenant.
\<close>

lemma reachable_pool_ok: "reachable s \<Longrightarrow> pool_ok s"
proof (induction rule: reachable.induct)
  case reach_new
  show ?case by (rule pool_ok_new)
next
  case (reach_connect_begin s t now)
  then show ?case by (simp add: pool_ok_connect_begin)
next
  case (reach_connect_resume s t h outcome)
  then show ?case by (simp add: pool_ok_connect_resume)
next
  case (reach_disconnect s throws t s')
  then show ?case by (blast intro: pool_ok_disconnect)
next
  case (reach_fires s h ev now rnd)
  then show ?case by (simp add: pool_ok_upstream_fires)
next
  case (reach_add s t)
  from reach_add.IH show ?case by (rule pool_ok_same) (simp_all add: addClientToRoom_def Let_def)
next
  case (reach_remove s t)
  from reach_remove.IH show ?case by (rule pool_ok_same) (simp_all add: removeClientFromRoom_def Let_def)
next
  case (reach_tick s throws now s')
  then show ?case unfolding checkInactiveConnections_def by (blast intro: pool_ok_sweep)
qed

lemma reachable_distinct: "reachable s \<Longrightarrow> distinct (map fst (connections s))"
  by (drule reachable_pool_ok) (simp add: pool_ok_def)

lemma reachable_entry_listeners:
  "reachable s \<Longrightarrow> map_of (connections s) t = Some e \<Longrightarrow>
   map_of (listeners s) (connection e) = Some t"
  by (drule reachable_pool_ok) (auto simp: pool_ok_def list_all_iff dest: map_of_SomeD)

subsection \<open>Subscriber counts\<close>

lemma getClientCount_nonneg: "counts_nonneg s \<Longrightarrow> 0 \<le> getClientCount t s"
  unfolding counts_nonneg_def getClientCount_def js_or_num_def list_all_iff
  by (fastforce split: option.splits dest: map_of_SomeD)

lemma addClientToRoom_nonneg: "counts_nonneg s \<Longrightarrow> counts_nonneg (addClientToRoom t s)"
  using getClientCount_nonneg [of s t]
  unfolding counts_nonneg_def addClientToRoom_def getClientCount_def list_all_iff Let_def
  by (auto dest!: set_update_cases)

lemma removeClientFromRoom_nonneg:
  "counts_nonneg s \<Longrightarrow> counts_nonneg (removeClientFromRoom t s)"
  unfolding counts_nonneg_def removeClientFromRoom_def list_all_iff Let_def
  by (auto dest!: set_update_cases)

lemma apply_registry_op_nonneg: "counts_nonneg s \<Longrightarrow> counts_nonneg (apply_registry_op s x)"
  by (cases x) (simp_all add: addClientToRoom_nonneg removeClientFromRoom_nonneg)

lemma foldl_registry_nonneg:
  "counts_nonneg s \<Longrightarrow> counts_nonneg (foldl apply_registry_op s ops)"
  by (induction ops arbitrary: s) (simp_all add: apply_registry_op_nonneg)

lemma new_service_nonneg: "counts_nonneg new_service"
  by (simp add: counts_nonneg_def new_service_def)

lemma removeClientFromRoom_at_zero:
  "getClientCount t s = 0 \<Longrightarrow> removeClientFromRoom t s = s"
  by (simp add: removeClientFromRoom_def getClientCount_def)

text \<open>Only the two registry operations write \<^verbatim>\<open>roomClients\<close>.\<close>

lemma roomClients_connect_begin: "roomClients (snd (connect_begin t now s)) = roomClients s"
  by (simp add: connect_begin_def Let_def split: option.splits)

lemma roomClients_connect_resume:
  "roomClients (snd (connect_resume t h outcome s)) = roomClients s"
  by (cases outcome) (simp_all add: connect_resume_def Let_def)

lemma roomClients_disconnect:
  "disconnect throws t s = Inr s' \<Longrightarrow> roomClients s' = roomClients s"
  by (auto simp: disconnect_def connection_disconnect_def split: option.splits)

lemma roomClients_updateActivity [simp]: "roomClients (updateActivity t now s) = roomClients s"
  by (simp add: updateActivity_def split: option.splits)

lemma roomClients_upstream_fires:
  "roomClients (upstream_fires h ev now rnd s) = roomClients s"
proof (cases "map_of (listeners s) h")
  case None
  then show ?thesis by (simp add: upstream_fires_def)
next
  case (Some t)
  have "roomClients (handle_event t ev now rnd s) = roomClients s"
    by (cases ev)
       (simp_all add: on_chat_def on_like_def on_social_def on_gift_def on_connected_def
          on_disconnected_def on_error_def io_emit_def Let_def)
  with Some show ?thesis by (simp add: upstream_fires_def)
qed

lemma roomClients_sweep:
  "sweep throws now xs s = Inr s' \<Longrightarrow> roomClients s' = roomClients s"
proof (induction xs arbitrary: s)
  case Nil
  then show ?case by simp
next
  case (Cons x xs)
  obtain k e where x: "x = (k, e)" by (cases x)
  show ?case
  proof (cases "evictable now s (k, e)")
    case True
    have "(case disconnect throws k s of
             Inl ex \<Rightarrow> Inl ex
           | Inr s1 \<Rightarrow> sweep throws now xs s1) = Inr s'"
      using Cons.prems True unfolding x sweep_Cons by simp
    then obtain s1 where d: "disconnect throws k s = Inr s1"
      and r: "sweep throws now xs s1 = Inr s'"
      by (cases "disconnect throws k s") simp_all
    from Cons.IH [OF r] roomClients_disconnect [OF d] show ?thesis by simp
  next
    case False
    have "sweep throws now xs s = Inr s'"
      using Cons.prems False unfolding x sweep_Cons by simp
    then show ?thesis by (rule Cons.IH)
  qed
qed

text \<open>In every reachable state, every stored count is at least 0.\<close>

lemma reachable_counts_nonneg: "reachable s \<Longrightarrow> counts_nonneg s"
proof (induction rule: reachable.induct)
  case reach_new
  show ?case by (rule new_service_nonneg)
next
  case (reach_connect_begin s t now)
  then show ?case by (simp add: counts_nonneg_def roomClients_connect_begin)
next
  case (reach_connect_resume s t h outcome)
  then show ?case by (simp add: counts_nonneg_def roomClients_connect_resume)
next
  case (reach_disconnect s throws t s')
  then show ?case by (simp add: counts_nonneg_def roomClients_disconnect)
next
  case (reach_fires s h ev now rnd)
  then show ?case by (simp add: counts_nonneg_def roomClients_upstream_fires)
next
  case (reach_add s t)
  then show ?case by (simp add: addClientToRoom_nonneg)
next
  case (reach_remove s t)
  then show ?case by (simp add: removeClientFromRoom_nonneg)
next
  case (reach_tick s throws now s')
  then show ?case by (simp add: counts_nonneg_def checkInactiveConnections_def roomClients_sweep)
qed

text \<open>
  C9. Starting from the empty registry, after any sequence of increments and decrements (of
  any tenants) the count of every tenant \<open>t\<close> is at least 0, every stored count is at least
  0, and a decrement of a tenant whose count is 0 leaves the whole state as it is.
\<close>

theorem counter_floor:
  "0 \<le> getClientCount t (foldl apply_registry_op new_service ops) \<and>
   counts_nonneg (foldl apply_registry_op new_service ops) \<and>
   (getClientCount t (foldl apply_registry_op new_service ops) = 0 \<longrightarrow>
      removeClientFromRoom t (foldl apply_registry_op new_service ops)
        = foldl apply_registry_op new_service ops)"
  using foldl_registry_nonneg [OF new_service_nonneg, of ops]
  by (simp add: getClientCount_nonneg removeClientFromRoom_at_zero)

theorem counter_floor_witness:
  "getClientCount ''alice''
     (foldl apply_registry_op new_service
        [Increment ''alice'', Decrement ''alice'', Decrement ''alice'']) = 0 \<and>
   roomClients
     (foldl apply_registry_op new_service
        [Increment ''alice'', Decrement ''alice'', Decrement ''alice'']) = [(''alice'', 0)] \<and>
   removeClientFromRoom ''alice''
     (foldl apply_registry_op new_service
        [Increment ''alice'', Decrement ''alice'', Decrement ''alice''])
     = foldl apply_registry_op new_service
         [Increment ''alice'', Decrement ''alice'', Decrement ''alice'']"
proof -
  have z: "getClientCount ''alice''
     (foldl apply_registry_op new_service
        [Increment ''alice'', Decrement ''alice'', Decrement ''alice'']) = 0"
    by (simp add: getClientCount_def addClientToRoom_def removeClientFromRoom_def
          new_service_def js_or_num_def)
  have r: "roomClients
     (foldl apply_registry_op new_service
        [Increment ''alice'', Decrement ''alice'', Decrement ''alice'']) = [(''alice'', 0)]"
    by (simp add: addClientToRoom_def removeClientFromRoom_def new_service_def js_or_num_def)
  from counter_floor [of "''alice''"
      "[Increment ''alice'', Decrement ''alice'', Decrement ''alice'']"] z r
  show ?thesis by blast
qed

subsection \<open>Gift value and gift type\<close>

lemma emitted_updateActivity [simp]: "emitted (updateActivity u now s) = emitted s"
  by (simp add: updateActivity_def split: option.splits)

text \<open>
  C7, as amended. The gift value is the first of \<^verbatim>\<open>diamondCount\<close>, \<^verbatim>\<open>giftValue\<close> that is
  neither null nor zero, and 1 when neither field is; it is never 0. It agrees with the
  resolution "first non-null field wins, zero becomes 1" on every payload whose
  \<^verbatim>\<open>diamondCount\<close> is not the number 0. The gift type is a function of the value alone: small
  below 10, medium from 10 to 99, large from 100; and the \<^verbatim>\<open>gift\<close> handler emits this value
  and this type in both of its events.
\<close>

theorem gift_value_and_type:
  "(\<forall>d. diamondCount data = Some d \<and> d \<noteq> 0 \<longrightarrow> resolve_giftValue data = d) \<and>
   (\<forall>g. (diamondCount data = None \<or> diamondCount data = Some 0) \<and>
        giftValue data = Some g \<and> g \<noteq> 0 \<longrightarrow> resolve_giftValue data = g) \<and>
   ((diamondCount data = None \<or> diamondCount data = Some 0) \<and>
    (giftValue data = None \<or> giftValue data = Some 0) \<longrightarrow> resolve_giftValue data = 1) \<and>
   resolve_giftValue data \<noteq> 0 \<and>
   (diamondCount data \<noteq> Some 0 \<longrightarrow> resolve_giftValue data = spec_resolve_giftValue data) \<and>
   (giftType_of v = ''small'' \<longleftrightarrow> v < 10) \<and>
   (giftType_of v = ''medium'' \<longleftrightarrow> 10 \<le> v \<and> v < 100) \<and>
   (giftType_of v = ''large'' \<longleftrightarrow> 100 \<le> v) \<and>
   giftType_of 9 = ''small'' \<and> giftType_of 10 = ''medium'' \<and>
   giftType_of 99 = ''medium'' \<and> giftType_of 100 = ''large'' \<and>
   new_emits s (on_gift username data now s) =
     [\<lparr>room = username, event_name = ''tiktok_gift'',
       event_payload =
         GiftPayload
           \<lparr>uniqueId = gift_uniqueId data, nickname = gift_nickname data,
            profilePictureUrl = gift_profilePictureUrl data\<rparr>
           (resolve_giftName data) (resolve_giftValue data) (resolve_repeatCount data)
           (giftType_of (resolve_giftValue data)) data now\<rparr>,
      \<lparr>room = username, event_name = ''gift_received'',
       event_payload =
         GiftReceivedPayload
           \<lparr>uniqueId = gift_uniqueId data, nickname = gift_nickname data,
            profilePictureUrl = gift_profilePictureUrl data\<rparr>
           (resolve_giftName data) (resolve_giftValue data) (resolve_repeatCount data)
           (giftType_of (resolve_giftValue data)) now\<rparr>]"
proof -
  have v: "(\<forall>d. diamondCount data = Some d \<and> d \<noteq> 0 \<longrightarrow> resolve_giftValue data = d) \<and>
      (\<forall>g. (diamondCount data = None \<or> diamondCount data = Some 0) \<and>
        giftValue data = Some g \<and> g \<noteq> 0 \<longrightarrow> resolve_giftValue data = g) \<and>
      ((diamondCount data = None \<or> diamondCount data = Some 0) \<and>
       (giftValue data = None \<or> giftValue data = Some 0) \<longrightarrow> resolve_giftValue data = 1)"
    by (auto simp: resolve_giftValue_def js_or_num_def)
  have nz: "resolve_giftValue data \<noteq> 0"
    by (simp add: resolve_giftValue_def js_or_num_def split: option.splits)
  have agree: "diamondCount data \<noteq> Some 0 \<longrightarrow> resolve_giftValue data = spec_resolve_giftValue data"
    by (simp add: resolve_giftValue_def spec_resolve_giftValue_def js_or_num_def
          split: option.splits)
  have ty: "(giftType_of v = ''small'' \<longleftrightarrow> v < 10) \<and>
      (giftType_of v = ''medium'' \<longleftrightarrow> 10 \<le> v \<and> v < 100) \<and>
      (giftType_of v = ''large'' \<longleftrightarrow> 100 \<le> v) \<and>
      giftType_of 9 = ''small'' \<and> giftType_of 10 = ''medium'' \<and>
      giftType_of 99 = ''medium'' \<and> giftType_of 100 = ''large''"
    by (simp add: giftType_of_def)
  have em: "new_emits s (on_gift username data now s) =
     [\<lparr>room = username, event_name = ''tiktok_gift'',
       event_payload =
         GiftPayload
           \<lparr>uniqueId = gift_uniqueId data, nickname = gift_nickname data,
            profilePictureUrl = gift_profilePictureUrl data\<rparr>
           (resolve_giftName data) (resolve_giftValue data) (resolve_repeatCount data)
           (giftType_of (resolve_giftValue data)) data now\<rparr>,
      \<lparr>room = username, event_name = ''gift_received'',
       event_payload =
         GiftReceivedPayload
           \<lparr>uniqueId = gift_uniqueId data, nickname = gift_nickname data,
            profilePictureUrl = gift_profilePictureUrl data\<rparr>
           (resolve_giftName data) (resolve_giftValue data) (resolve_repeatCount data)
           (giftType_of (resolve_giftValue data)) now\<rparr>]"
    by (simp add: new_emits_def on_gift_def io_emit_def Let_def)
  from v nz agree ty em show ?thesis by blast
qed

theorem gift_value_and_type_witness:
  "diamondCount lion_gift = Some 150 \<and> (150::int) \<noteq> 0 \<and>
   resolve_giftValue lion_gift = 150 \<and>
   spec_resolve_giftValue lion_gift = 150 \<and>
   giftType_of (resolve_giftValue lion_gift) = ''large'' \<and>
   diamondCount zero_diamond_gift = Some 0 \<and> giftValue zero_diamond_gift = Some 50 \<and>
   resolve_giftValue zero_diamond_gift = 50 \<and>
   (diamondCount (lion_gift\<lparr>diamondCount := None\<rparr>) = None \<and>
    giftValue (lion_gift\<lparr>diamondCount := None\<rparr>) = None) \<and>
   resolve_giftValue (lion_gift\<lparr>diamondCount := None\<rparr>) = 1"
proof -
  have a: "diamondCount lion_gift = Some 150 \<and> (150::int) \<noteq> 0"
    by (simp add: lion_gift_def)
  have b: "diamondCount lion_gift \<noteq> Some 0" by (simp add: lion_gift_def)
  have c: "(diamondCount zero_diamond_gift = None \<or> diamondCount zero_diamond_gift = Some 0) \<and>
           giftValue zero_diamond_gift = Some 50 \<and> (50::int) \<noteq> 0"
    by (simp add: zero_diamond_gift_def)
  have d: "(diamondCount (lion_gift\<lparr>diamondCount := None\<rparr>) = None \<or>
            diamondCount (lion_gift\<lparr>diamondCount := None\<rparr>) = Some 0) \<and>
           (giftValue (lion_gift\<lparr>diamondCount := None\<rparr>) = None \<or>
            giftValue (lion_gift\<lparr>diamondCount := None\<rparr>) = Some 0)"
    by (simp add: lion_gift_def)
  have e: "diamondCount zero_diamond_gift = Some 0" by (simp add: zero_diamond_gift_def)
  have f: "diamondCount (lion_gift\<lparr>diamondCount := None\<rparr>) = None \<and>
           giftValue (lion_gift\<lparr>diamondCount := None\<rparr>) = None"
    by (simp add: lion_gift_def)
  have t: "giftType_of 150 = ''large''" by (simp add: giftType_of_def)
  note l = gift_value_and_type [of lion_gift 150 new_service "''alice''" 0]
  note z = gift_value_and_type [of zero_diamond_gift 50 new_service "''alice''" 0]
  note n = gift_value_and_type [of "lion_gift\<lparr>diamondCount := None\<rparr>" 1 new_service "''alice''" 0]
  have l1: "resolve_giftValue lion_gift = 150" using l a by blast
  have l2: "spec_resolve_giftValue lion_gift = 150" using l b l1 by metis
  have z1: "resolve_giftValue zero_diamond_gift = 50" using z c by blast
  have n1: "resolve_giftValue (lion_gift\<lparr>diamondCount := None\<rparr>) = 1" using n d by blast
  from a l1 l2 t e c z1 f n1 show ?thesis by simp
qed

text \<open>
  The claim as worded fails where \<^verbatim>\<open>diamondCount\<close> is 0 and \<^verbatim>\<open>giftValue\<close> is 50: the first
  non-null field is \<^verbatim>\<open>diamondCount\<close>, whose zero would become 1 (small); the code falls
  through to \<^verbatim>\<open>giftValue\<close> and emits 50 (medium).
\<close>

theorem gift_first_non_null_counterexample:
  "spec_resolve_giftValue zero_diamond_gift = 1 \<and>
   giftType_of (spec_resolve_giftValue zero_diamond_gift) = ''small'' \<and>
   resolve_giftValue zero_diamond_gift = 50 \<and>
   giftType_of (resolve_giftValue zero_diamond_gift) = ''medium''"
  by (simp add: spec_resolve_giftValue_def resolve_giftValue_def js_or_num_def
        zero_diamond_gift_def giftType_of_def)

subsection \<open>\<^verbatim>\<open>disconnect\<close>\<close>

text \<open>
  C6. \<^verbatim>\<open>disconnect(t)\<close> never throws, whatever the upstream teardown does: it returns a
  state without an entry for \<open>t\<close> and with every other entry as before, and a second
  \<^verbatim>\<open>disconnect(t)\<close> changes nothing. Without an entry for \<open>t\<close> the state is returned as it
  is. With an entry, the teardown of its handle is requested once and the entry is removed,
  the same whether the teardown throws or not.
\<close>

theorem disconnect_idempotent_total:
  "(\<exists>s'. disconnect throws t s = Inr s' \<and>
         map_of (connections s') t = None \<and>
         (\<forall>u. u \<noteq> t \<longrightarrow> map_of (connections s') u = map_of (connections s) u) \<and>
         disconnect throws' t s' = Inr s') \<and>
   (map_of (connections s) t = None \<longrightarrow> disconnect throws t s = Inr s) \<and>
   (\<forall>e. map_of (connections s) t = Some e \<longrightarrow>
        disconnect throws t s =
          Inr (s\<lparr>upstream := upstream s @ [(connection e, DisconnectCalled)],
                connections := AList.delete t (connections s)\<rparr>))"
proof (cases "map_of (connections s) t")
  case None
  then show ?thesis by (simp add: disconnect_absent)
next
  case (Some e)
  let ?s' = "s\<lparr>upstream := upstream s @ [(connection e, DisconnectCalled)],
                connections := AList.delete t (connections s)\<rparr>"
  have d: "disconnect throws t s = Inr ?s'" by (rule disconnect_present [OF Some])
  have gone: "map_of (connections ?s') t = None" by (simp add: map_of_delete_same)
  have again: "disconnect throws' t ?s' = Inr ?s'" by (rule disconnect_absent [OF gone])
  have others: "\<forall>u. u \<noteq> t \<longrightarrow> map_of (connections ?s') u = map_of (connections s) u"
    by (simp add: map_of_delete_other)
  from d gone again others Some show ?thesis by simp
qed

theorem disconnect_idempotent_total_witness:
  "map_of (connections three_tenants) ''alice'' = Some \<lparr>connection = 0, lastActivity = 0\<rparr> \<and>
   always_throws 0 \<and>
   disconnect always_throws ''alice'' three_tenants =
     Inr (three_tenants
           \<lparr>upstream := [(0, DisconnectCalled)],
            connections := [(''bob'', \<lparr>connection = 1, lastActivity = 0\<rparr>),
                            (''carol'', \<lparr>connection = 2, lastActivity = 100000\<rparr>)]\<rparr>) \<and>
   ''bob'' \<noteq> ''alice'' \<and>
   map_of (connections three_tenants) ''dave'' = None \<and>
   disconnect always_throws ''dave'' three_tenants = Inr three_tenants"
proof -
  have p: "map_of (connections three_tenants) ''alice'' = Some \<lparr>connection = 0, lastActivity = 0\<rparr>"
    by (simp add: three_tenants_def)
  have a: "map_of (connections three_tenants) ''dave'' = None"
    by (simp add: three_tenants_def)
  have "disconnect always_throws ''alice'' three_tenants =
          Inr (three_tenants
                \<lparr>upstream := upstream three_tenants @
                    [(connection \<lparr>connection = 0, lastActivity = 0\<rparr>, DisconnectCalled)],
                 connections := AList.delete ''alice'' (connections three_tenants)\<rparr>)"
    using disconnect_idempotent_total [of always_throws "''alice''" three_tenants never_throws] p
    by blast
  then have d: "disconnect always_throws ''alice'' three_tenants =
     Inr (three_tenants
           \<lparr>upstream := [(0, DisconnectCalled)],
            connections := [(''bob'', \<lparr>connection = 1, lastActivity = 0\<rparr>),
                            (''carol'', \<lparr>connection = 2, lastActivity = 100000\<rparr>)]\<rparr>)"
    by (simp add: three_tenants_def)
  have n: "disconnect always_throws ''dave'' three_tenants = Inr three_tenants"
    using disconnect_idempotent_total [of always_throws "''dave''" three_tenants never_throws] a
    by blast
  from p d a n show ?thesis by (simp add: always_throws_def)
qed

subsection \<open>\<^verbatim>\<open>connect\<close>: reuse\<close>

text \<open>
  C4. When the pool has an entry for \<open>t\<close>, \<^verbatim>\<open>connect(t)\<close> returns true, starts no handshake,
  keeps the entry's handle and sets its \<^verbatim>\<open>lastActivity\<close> to the current time. So a first
  \<^verbatim>\<open>connect(t)\<close> for an unseen tenant whose handshake succeeds, followed by a second
  \<^verbatim>\<open>connect(t)\<close>, makes one handshake in all, both calls return true and the entry holds
  the handle the first call created.
\<close>

theorem sequential_connect_reuses:
  "(\<forall>e. map_of (connections s) t = Some e \<longrightarrow>
      connect t now outcome s =
        (True, s\<lparr>connections := AList.update t (e\<lparr>lastActivity := now\<rparr>) (connections s)\<rparr>) \<and>
      map_of (connections (snd (connect t now outcome s))) t
        = Some \<lparr>connection = connection e, lastActivity = now\<rparr> \<and>
      handshakes (snd (connect t now outcome s)) = handshakes s) \<and>
   (map_of (connections s) t = None \<longrightarrow>
      fst (connect t now Resolved s) = True \<and>
      fst (connect t now' outcome (snd (connect t now Resolved s))) = True \<and>
      map_of (connections (snd (connect t now' outcome (snd (connect t now Resolved s))))) t
        = Some \<lparr>connection = next_handle s, lastActivity = now'\<rparr> \<and>
      handshakes (snd (connect t now' outcome (snd (connect t now Resolved s))))
        = Suc (handshakes s))"
proof (intro conjI allI impI)
  fix e assume e: "map_of (connections s) t = Some e"
  show "connect t now outcome s =
        (True, s\<lparr>connections := AList.update t (e\<lparr>lastActivity := now\<rparr>) (connections s)\<rparr>)"
    by (simp add: connect_def connect_begin_seen [OF e])
  then show "map_of (connections (snd (connect t now outcome s))) t
        = Some \<lparr>connection = connection e, lastActivity = now\<rparr>"
    by (simp add: update_conv')
  show "handshakes (snd (connect t now outcome s)) = handshakes s"
    by (simp add: connect_def connect_begin_seen [OF e] handshakes_def)
next
  assume n: "map_of (connections s) t = None"
  let ?s1 = "s\<lparr>next_handle := Suc (next_handle s),
        connections :=
          AList.update t \<lparr>connection = next_handle s, lastActivity = now\<rparr> (connections s),
        listeners := AList.update (next_handle s) t (listeners s),
        upstream := upstream s @
          [(next_handle s, ConnectCalled), (next_handle s, ConnectResolved)]\<rparr>"
  have c1: "connect t now Resolved s = (True, ?s1)"
    by (simp add: connect_def connect_begin_unseen [OF n] connect_resume_def)
  have e1: "map_of (connections ?s1) t = Some \<lparr>connection = next_handle s, lastActivity = now\<rparr>"
    by (simp add: update_conv')
  have c2: "connect t now' outcome ?s1 =
     (True, ?s1\<lparr>connections :=
                 AList.update t \<lparr>connection = next_handle s, lastActivity = now'\<rparr>
                   (connections ?s1)\<rparr>)"
    using connect_begin_seen [OF e1, of now'] by (simp add: connect_def)
  show "fst (connect t now Resolved s) = True" by (simp add: c1)
  show "fst (connect t now' outcome (snd (connect t now Resolved s))) = True"
    by (simp only: c1 snd_conv c2 fst_conv)
  show "map_of (connections (snd (connect t now' outcome (snd (connect t now Resolved s))))) t
        = Some \<lparr>connection = next_handle s, lastActivity = now'\<rparr>"
    by (simp only: c1 snd_conv c2) (simp add: update_conv')
  show "handshakes (snd (connect t now' outcome (snd (connect t now Resolved s))))
        = Suc (handshakes s)"
    by (simp only: c1 snd_conv c2) (simp add: handshakes_def)
qed

theorem sequential_connect_reuses_witness:
  "map_of (connections three_tenants) ''bob'' = Some \<lparr>connection = 1, lastActivity = 0\<rparr> \<and>
   fst (connect ''bob'' 5000 Rejected three_tenants) = True \<and>
   map_of (connections (snd (connect ''bob'' 5000 Rejected three_tenants))) ''bob''
     = Some \<lparr>connection = 1, lastActivity = 5000\<rparr> \<and>
   handshakes (snd (connect ''bob'' 5000 Rejected three_tenants)) = 0 \<and>
   map_of (connections new_service) ''alice'' = None \<and>
   fst (connect ''alice'' 1000 Resolved new_service) = True \<and>
   fst (connect ''alice'' 2000 Rejected (snd (connect ''alice'' 1000 Resolved new_service))) = True \<and>
   map_of (connections
       (snd (connect ''alice'' 2000 Rejected (snd (connect ''alice'' 1000 Resolved new_service)))))
     ''alice'' = Some \<lparr>connection = 0, lastActivity = 2000\<rparr> \<and>
   handshakes
     (snd (connect ''alice'' 2000 Rejected (snd (connect ''alice'' 1000 Resolved new_service))))
     = 1"
proof -
  have b: "map_of (connections three_tenants) ''bob'' = Some \<lparr>connection = 1, lastActivity = 0\<rparr>"
    by (simp add: three_tenants_def)
  have a: "map_of (connections new_service) ''alice'' = None"
    by (simp add: new_service_def)
  have h0: "handshakes three_tenants = 0" "handshakes new_service = 0"
           "next_handle new_service = 0"
    by (simp_all add: handshakes_def three_tenants_def new_service_def)
  note w1 = sequential_connect_reuses [of three_tenants "''bob''" 5000 Rejected 0]
  note w2 = sequential_connect_reuses [of new_service "''alice''" 1000 Rejected 2000]
  have r1: "connect ''bob'' 5000 Rejected three_tenants =
        (True, three_tenants\<lparr>connections :=
           AList.update ''bob'' (\<lparr>connection = 1, lastActivity = 0\<rparr>\<lparr>lastActivity := 5000\<rparr>)
             (connections three_tenants)\<rparr>) \<and>
      map_of (connections (snd (connect ''bob'' 5000 Rejected three_tenants))) ''bob''
        = Some \<lparr>connection = connection \<lparr>connection = 1, lastActivity = 0\<rparr>, lastActivity = 5000\<rparr> \<and>
      handshakes (snd (connect ''bob'' 5000 Rejected three_tenants)) = handshakes three_tenants"
    using w1 b by blast
  have r2: "fst (connect ''alice'' 1000 Resolved new_service) = True \<and>
      fst (connect ''alice'' 2000 Rejected (snd (connect ''alice'' 1000 Resolved new_service))) = True \<and>
      map_of (connections
          (snd (connect ''alice'' 2000 Rejected (snd (connect ''alice'' 1000 Resolved new_service)))))
        ''alice'' = Some \<lparr>connection = next_handle new_service, lastActivity = 2000\<rparr> \<and>
      handshakes
        (snd (connect ''alice'' 2000 Rejected (snd (connect ''alice'' 1000 Resolved new_service))))
        = Suc (handshakes new_service)"
    using w2 a by blast
  have t1: "fst (connect ''bob'' 5000 Rejected three_tenants) = True"
    using r1 by simp
  have t2: "map_of (connections (snd (connect ''bob'' 5000 Rejected three_tenants))) ''bob''
     = Some \<lparr>connection = 1, lastActivity = 5000\<rparr>"
    using conjunct1 [OF conjunct2 [OF r1]] by simp
  have t3: "handshakes (snd (connect ''bob'' 5000 Rejected three_tenants)) = 0"
    using conjunct2 [OF conjunct2 [OF r1]] by (simp add: h0)
  have t4: "map_of (connections
       (snd (connect ''alice'' 2000 Rejected (snd (connect ''alice'' 1000 Resolved new_service)))))
     ''alice'' = Some \<lparr>connection = 0, lastActivity = 2000\<rparr>"
    using conjunct1 [OF conjunct2 [OF conjunct2 [OF r2]]] by (simp add: h0)
  have t5: "handshakes
     (snd (connect ''alice'' 2000 Rejected (snd (connect ''alice'' 1000 Resolved new_service))))
     = 1"
    using conjunct2 [OF conjunct2 [OF conjunct2 [OF r2]]] by (simp add: h0)
  from b a t1 t2 t3 t4 t5 conjunct1 [OF r2] conjunct1 [OF conjunct2 [OF r2]]
  show ?thesis by blast
qed

subsection \<open>\<^verbatim>\<open>connect\<close>: two calls in flight\<close>

text \<open>
  C2. For a tenant \<open>t\<close> that is not in the pool, a first \<^verbatim>\<open>connect(t)\<close> starts the handshake
  of a new handle and is suspended on it. A second \<^verbatim>\<open>connect(t)\<close> that runs while the first
  is suspended returns true, starts no handshake and finds the first call's handle in the
  pool entry. However the handshake ends, the two calls have made exactly one handshake.
\<close>

theorem concurrent_connect_single_handshake:
  assumes "map_of (connections s) t = None"
  shows "fst (connect_begin t now1 s) = Awaiting (next_handle s) \<and>
         fst (connect_begin t now2 (snd (connect_begin t now1 s))) = Returned True \<and>
         map_of (connections (snd (connect_begin t now2 (snd (connect_begin t now1 s))))) t
           = Some \<lparr>connection = next_handle s, lastActivity = now2\<rparr> \<and>
         upstream (snd (connect_begin t now2 (snd (connect_begin t now1 s))))
           = upstream s @ [(next_handle s, ConnectCalled)] \<and>
         handshakes (snd (connect_resume t (next_handle s) outcome
                            (snd (connect_begin t now2 (snd (connect_begin t now1 s))))))
           = Suc (handshakes s)"
proof -
  let ?h = "next_handle s"
  let ?s1 = "snd (connect_begin t now1 s)"
  let ?s2 = "snd (connect_begin t now2 ?s1)"
  have b1: "connect_begin t now1 s = (Awaiting ?h, ?s1)"
    using connect_begin_unseen [OF assms, of now1] by simp
  have s1: "?s1 = s\<lparr>next_handle := Suc ?h,
        connections := AList.update t \<lparr>connection = ?h, lastActivity = now1\<rparr> (connections s),
        listeners := AList.update ?h t (listeners s),
        upstream := upstream s @ [(?h, ConnectCalled)]\<rparr>"
    using connect_begin_unseen [OF assms, of now1] by simp
  have e1: "map_of (connections ?s1) t = Some \<lparr>connection = ?h, lastActivity = now1\<rparr>"
    by (simp add: s1 update_conv')
  have b2: "connect_begin t now2 ?s1 =
     (Returned True,
      ?s1\<lparr>connections :=
            AList.update t \<lparr>connection = ?h, lastActivity = now2\<rparr> (connections ?s1)\<rparr>)"
    using connect_begin_seen [OF e1, of now2] by simp
  have e2: "map_of (connections ?s2) t = Some \<lparr>connection = ?h, lastActivity = now2\<rparr>"
    by (simp add: b2 update_conv')
  have u2: "upstream ?s2 = upstream s @ [(?h, ConnectCalled)]"
    by (simp add: b2) (simp add: s1)
  have h3: "handshakes (snd (connect_resume t ?h outcome ?s2)) = Suc (handshakes s)"
    by (cases outcome) (simp_all add: connect_resume_def handshakes_def u2 Let_def)
  have f1: "fst (connect_begin t now1 s) = Awaiting ?h" by (subst b1) simp
  have f2: "fst (connect_begin t now2 ?s1) = Returned True" by (subst b2) simp
  from f1 f2 e2 u2 h3 show ?thesis by blast
qed

theorem concurrent_connect_single_handshake_witness:
  "map_of (connections new_service) ''alice'' = None \<and>
   fst (connect_begin ''alice'' 1000 new_service) = Awaiting 0 \<and>
   fst (connect_begin ''alice'' 1001 (snd (connect_begin ''alice'' 1000 new_service)))
     = Returned True \<and>
   upstream (snd (connect_begin ''alice'' 1001 (snd (connect_begin ''alice'' 1000 new_service))))
     = [(0, ConnectCalled)] \<and>
   handshakes
     (snd (connect_resume ''alice'' 0 Resolved
        (snd (connect_begin ''alice'' 1001 (snd (connect_begin ''alice'' 1000 new_service))))))
     = 1"
proof -
  have a: "map_of (connections new_service) ''alice'' = None"
    by (simp add: new_service_def)
  have z: "next_handle new_service = 0" "upstream new_service = []" "handshakes new_service = 0"
    by (simp_all add: new_service_def handshakes_def)
  note w = concurrent_connect_single_handshake [OF a, of 1000 1001 Resolved]
  have w1: "fst (connect_begin ''alice'' 1000 new_service) = Awaiting 0"
    using conjunct1 [OF w] by (simp add: z)
  have w2: "fst (connect_begin ''alice'' 1001 (snd (connect_begin ''alice'' 1000 new_service)))
     = Returned True"
    using conjunct1 [OF conjunct2 [OF w]] .
  have w4: "upstream
      (snd (connect_begin ''alice'' 1001 (snd (connect_begin ''alice'' 1000 new_service))))
     = [(0, ConnectCalled)]"
    using conjunct1 [OF conjunct2 [OF conjunct2 [OF conjunct2 [OF w]]]] by (simp add: z)
  have w5: "handshakes
     (snd (connect_resume ''alice'' 0 Resolved
        (snd (connect_begin ''alice'' 1001 (snd (connect_begin ''alice'' 1000 new_service))))))
     = 1"
    using conjunct2 [OF conjunct2 [OF conjunct2 [OF conjunct2 [OF w]]]] by (simp add: z)
  from a w1 w2 w4 w5 show ?thesis by blast
qed

text \<open>
  C10. For a tenant \<open>t\<close> that is not in the pool, a second \<^verbatim>\<open>connect(t)\<close> that runs while the
  first is suspended on its handshake returns true at once, when the handshake has no
  outcome yet. If the handshake is then rejected, the first call returns false and the pool
  has no entry for \<open>t\<close>: the second caller was told true for a connection that failed.
\<close>

theorem second_connect_true_then_handshake_fails:
  assumes "map_of (connections s) t = None"
  shows "\<exists>s1 s2 s3.
           connect_begin t now1 s = (Awaiting (next_handle s), s1) \<and>
           connect_begin t now2 s1 = (Returned True, s2) \<and>
           upstream s2 = upstream s @ [(next_handle s, ConnectCalled)] \<and>
           connect_resume t (next_handle s) Rejected s2 = (False, s3) \<and>
           map_of (connections s3) t = None"
proof -
  let ?h = "next_handle s"
  let ?s1 = "s\<lparr>next_handle := Suc ?h,
        connections := AList.update t \<lparr>connection = ?h, lastActivity = now1\<rparr> (connections s),
        listeners := AList.update ?h t (listeners s),
        upstream := upstream s @ [(?h, ConnectCalled)]\<rparr>"
  let ?s2 = "?s1\<lparr>connections :=
                   AList.update t \<lparr>connection = ?h, lastActivity = now2\<rparr> (connections ?s1)\<rparr>"
  let ?s3 = "?s2\<lparr>upstream := upstream ?s2 @ [(?h, ConnectRejected)],
                 connections := AList.delete t (connections ?s2)\<rparr>"
  have b1: "connect_begin t now1 s = (Awaiting ?h, ?s1)"
    by (rule connect_begin_unseen [OF assms])
  have e1: "map_of (connections ?s1) t = Some \<lparr>connection = ?h, lastActivity = now1\<rparr>"
    by (simp add: update_conv')
  have b2: "connect_begin t now2 ?s1 = (Returned True, ?s2)"
    using connect_begin_seen [OF e1, of now2] by simp
  have u2: "upstream ?s2 = upstream s @ [(?h, ConnectCalled)]" by simp
  have r: "connect_resume t ?h Rejected ?s2 = (False, ?s3)"
    by (simp add: connect_resume_def Let_def)
  have g3: "map_of (connections ?s3) t = None" by (simp add: map_of_delete_same)
  from b1 b2 u2 r g3 show ?thesis by blast
qed

theorem second_connect_true_then_handshake_fails_witness:
  "map_of (connections new_service) ''alice'' = None \<and>
   (\<exists>s1 s2 s3.
      connect_begin ''alice'' 1000 new_service = (Awaiting 0, s1) \<and>
      connect_begin ''alice'' 1001 s1 = (Returned True, s2) \<and>
      upstream s2 = [(0, ConnectCalled)] \<and>
      connect_resume ''alice'' 0 Rejected s2 = (False, s3) \<and>
      map_of (connections s3) ''alice'' = None)"
proof -
  have a: "map_of (connections new_service) ''alice'' = None"
    by (simp add: new_service_def)
  have z: "next_handle new_service = 0" "upstream new_service = []"
    by (simp_all add: new_service_def)
  from second_connect_true_then_handshake_fails [OF a, of 1000 1001] a
  show ?thesis by (simp add: z)
qed

subsection \<open>\<^verbatim>\<open>disconnect\<close> while \<^verbatim>\<open>connect\<close> is in flight\<close>

text \<open>
  C3, as amended. For a tenant \<open>t\<close> that is not in the pool: when \<^verbatim>\<open>disconnect(t)\<close> runs
  while \<^verbatim>\<open>connect(t)\<close> is suspended on its handshake, it requests the teardown of the handle
  that is still connecting and removes the entry of \<open>t\<close>. When the handshake then resolves,
  \<^verbatim>\<open>connect\<close> returns true, the pool still has no entry for \<open>t\<close>, and nothing more is done
  at the handle: the only teardown request in the log precedes the resolution.
\<close>

theorem disconnect_during_connect:
  assumes "map_of (connections s) t = None"
  shows "\<exists>s1 s2 s3.
           connect_begin t now s = (Awaiting (next_handle s), s1) \<and>
           disconnect throws t s1 = Inr s2 \<and>
           connect_resume t (next_handle s) Resolved s2 = (True, s3) \<and>
           map_of (connections s2) t = None \<and>
           map_of (connections s3) t = None \<and>
           upstream s3 = upstream s @ [(next_handle s, ConnectCalled),
                                       (next_handle s, DisconnectCalled),
                                       (next_handle s, ConnectResolved)]"
proof -
  let ?h = "next_handle s"
  let ?s1 = "s\<lparr>next_handle := Suc ?h,
        connections := AList.update t \<lparr>connection = ?h, lastActivity = now\<rparr> (connections s),
        listeners := AList.update ?h t (listeners s),
        upstream := upstream s @ [(?h, ConnectCalled)]\<rparr>"
  let ?s2 = "?s1\<lparr>upstream := upstream ?s1 @ [(?h, DisconnectCalled)],
                 connections := AList.delete t (connections ?s1)\<rparr>"
  let ?s3 = "?s2\<lparr>upstream := upstream ?s2 @ [(?h, ConnectResolved)]\<rparr>"
  have b: "connect_begin t now s = (Awaiting ?h, ?s1)"
    by (rule connect_begin_unseen [OF assms])
  have e1: "map_of (connections ?s1) t = Some \<lparr>connection = ?h, lastActivity = now\<rparr>"
    by (simp add: update_conv')
  have d: "disconnect throws t ?s1 = Inr ?s2"
    using disconnect_present [OF e1, of throws] by simp
  have r: "connect_resume t ?h Resolved ?s2 = (True, ?s3)"
    by (simp add: connect_resume_def)
  have g2: "map_of (connections ?s2) t = None" by (simp add: map_of_delete_same)
  have g3: "map_of (connections ?s3) t = None" by (simp add: map_of_delete_same)
  have u3: "upstream ?s3 =
      upstream s @ [(?h, ConnectCalled), (?h, DisconnectCalled), (?h, ConnectResolved)]"
    by simp
  from b d r g2 g3 u3 show ?thesis by blast
qed

theorem disconnect_during_connect_witness:
  "map_of (connections new_service) ''alice'' = None \<and>
   (\<exists>s1 s2 s3.
      connect_begin ''alice'' 1000 new_service = (Awaiting 0, s1) \<and>
      disconnect always_throws ''alice'' s1 = Inr s2 \<and>
      connect_resume ''alice'' 0 Resolved s2 = (True, s3) \<and>
      map_of (connections s2) ''alice'' = None \<and>
      map_of (connections s3) ''alice'' = None \<and>
      upstream s3 = [(0, ConnectCalled), (0, DisconnectCalled), (0, ConnectResolved)])"
proof -
  have a: "map_of (connections new_service) ''alice'' = None"
    by (simp add: new_service_def)
  have z: "next_handle new_service = 0" "upstream new_service = []"
    by (simp_all add: new_service_def)
  from disconnect_during_connect [OF a, of 1000 always_throws] a
  show ?thesis by (simp add: z)
qed

text \<open>
  The claim as worded fails on a fresh service: \<^verbatim>\<open>connect("alice")\<close> is suspended,
  \<^verbatim>\<open>disconnect("alice")\<close> runs, the handshake resolves. \<^verbatim>\<open>connect\<close> returns true and no
  teardown follows the resolution, while the handlers of the handle stay installed.
\<close>

theorem disconnect_intent_lost_counterexample:
  "connect_begin ''alice'' 1000 new_service = (Awaiting 0, alice_connecting) \<and>
   disconnect never_throws ''alice'' alice_connecting = Inr alice_disconnected \<and>
   connect_resume ''alice'' 0 Resolved alice_disconnected = (True, alice_resolved) \<and>
   upstream alice_resolved = [(0, ConnectCalled), (0, DisconnectCalled), (0, ConnectResolved)] \<and>
   \<not> torn_down_after_established 0 (upstream alice_resolved) \<and>
   map_of (listeners alice_resolved) 0 = Some ''alice''"
  by (simp add: alice_resolved_def alice_disconnected_def alice_connecting_def
        connect_begin_def connect_resume_def disconnect_def connection_disconnect_def
        new_service_def torn_down_after_established_def Let_def)

subsection \<open>Isolation of rooms\<close>

lemma on_chat_emits: "emits_only_to A s (on_chat A data now rnd s)"
  by (simp add: emits_only_to_def new_emits_def on_chat_def io_emit_def Let_def)

lemma on_like_emits: "emits_only_to A s (on_like A data now s)"
  by (simp add: emits_only_to_def new_emits_def on_like_def io_emit_def Let_def)

lemma on_social_emits: "emits_only_to A s (on_social A data now s)"
  by (simp add: emits_only_to_def new_emits_def on_social_def io_emit_def Let_def)

lemma on_gift_emits: "emits_only_to A s (on_gift A data now s)"
  by (simp add: emits_only_to_def new_emits_def on_gift_def io_emit_def Let_def)

lemma on_connected_emits: "emits_only_to A s (on_connected A r now s)"
  by (simp add: emits_only_to_def new_emits_def on_connected_def io_emit_def)

lemma on_disconnected_emits: "emits_only_to A s (on_disconnected A now s)"
  by (simp add: emits_only_to_def new_emits_def on_disconnected_def io_emit_def Let_def)

lemma on_error_emits: "emits_only_to A s (on_error A msg now s)"
  by (simp add: emits_only_to_def new_emits_def on_error_def io_emit_def)

lemma handle_event_emits: "emits_only_to A s (handle_event A ev now rnd s)"
  by (cases ev)
     (simp_all add: on_chat_emits on_like_emits on_social_emits on_gift_emits
        on_connected_emits on_disconnected_emits on_error_emits)

lemma recipients_only_joined:
  "only_joined m sid B \<Longrightarrow> A \<noteq> B \<Longrightarrow> sid \<notin> set (recipients m A)"
  by (auto simp: only_joined_def recipients_def list_all_iff)

lemma delivered_to_room:
  "list_all (\<lambda>e. room e = A) es \<Longrightarrow> sid \<notin> set (recipients m A) \<Longrightarrow>
   sid \<notin> fst ` set (delivered m es)"
  by (auto simp: delivered_def list_all_iff)

text \<open>
  C1. Let \<open>h\<close> be an upstream handle whose handlers were installed by \<^verbatim>\<open>connect(A)\<close>. Whatever
  event the upstream fires on \<open>h\<close> (chat, like, social, gift, connected, disconnected or
  error), the handlers only append to the log of emits, every emit they append names room
  \<open>A\<close>, and a socket whose only room is \<open>B\<close>, with \<open>B\<close> different from \<open>A\<close>, is not a
  recipient of any of them.
\<close>

theorem broadcast_isolation:
  assumes "map_of (listeners s) h = Some A" and "A \<noteq> B" and "only_joined m sid B"
  shows "emits_only_to A s (upstream_fires h ev now rnd s) \<and>
         sid \<notin> fst ` set (delivered m (new_emits s (upstream_fires h ev now rnd s)))"
proof -
  have f: "upstream_fires h ev now rnd s = handle_event A ev now rnd s"
    using assms(1) by (simp add: upstream_fires_def)
  have a: "emits_only_to A s (upstream_fires h ev now rnd s)"
    unfolding f by (rule handle_event_emits)
  have "sid \<notin> set (recipients m A)"
    by (rule recipients_only_joined [OF assms(3,2)])
  moreover have "list_all (\<lambda>e. room e = A) (new_emits s (upstream_fires h ev now rnd s))"
    using a by (simp add: emits_only_to_def)
  ultimately have "sid \<notin> fst ` set (delivered m (new_emits s (upstream_fires h ev now rnd s)))"
    by (rule delivered_to_room [rotated])
  with a show ?thesis by simp
qed

theorem broadcast_isolation_witness:
  "map_of (listeners alice_connecting) 0 = Some ''alice'' \<and> ''alice'' \<noteq> ''bob'' \<and>
   only_joined two_rooms ''sock2'' ''bob'' \<and>
   map (\<lambda>e. (room e, event_name e))
     (new_emits alice_connecting (upstream_fires 0 (Gift lion_gift) 2000 3 alice_connecting))
     = [(''alice'', ''tiktok_gift''), (''alice'', ''gift_received'')] \<and>
   map fst (delivered two_rooms
     (new_emits alice_connecting (upstream_fires 0 (Gift lion_gift) 2000 3 alice_connecting)))
     = [''sock1'', ''sock1''] \<and>
   ''sock2'' \<notin> fst ` set (delivered two_rooms
     (new_emits alice_connecting (upstream_fires 0 (Gift lion_gift) 2000 3 alice_connecting)))"
proof -
  have l: "map_of (listeners alice_connecting) 0 = Some ''alice''"
    by (simp add: alice_connecting_def connect_begin_def new_service_def Let_def)
  have n: "''alice'' \<noteq> ''bob''" by simp
  have o: "only_joined two_rooms ''sock2'' ''bob''"
    by (simp add: only_joined_def two_rooms_def socket_join_def)
  have e: "map (\<lambda>e. (room e, event_name e))
     (new_emits alice_connecting (upstream_fires 0 (Gift lion_gift) 2000 3 alice_connecting))
     = [(''alice'', ''tiktok_gift''), (''alice'', ''gift_received'')]"
    by (simp add: upstream_fires_def l new_emits_def on_gift_def io_emit_def Let_def)
  have d: "map fst (delivered two_rooms
     (new_emits alice_connecting (upstream_fires 0 (Gift lion_gift) 2000 3 alice_connecting)))
     = [''sock1'', ''sock1'']"
    by (simp add: upstream_fires_def l new_emits_def on_gift_def io_emit_def Let_def
          delivered_def recipients_def two_rooms_def socket_join_def)
  from broadcast_isolation [OF l n o, of "Gift lion_gift" 2000 3] l n o e d
  show ?thesis by blast
qed

subsection \<open>A rejected handshake\<close>





lemma listeners_updateActivity [simp]: "listeners (updateActivity t now s) = listeners s"
  by (simp add: updateActivity_def split: option.splits)





lemma connect_with_no_events: "connect_with_events t now [] outcome s = connect t now outcome s"
  by (simp add: connect_with_events_def connect_def split: prod.splits connect_step.splits)




subsection \<open>The cleanup tick\<close>

text \<open>
  C8. The cleanup timer fires every 60 seconds. A tick at time \<open>now\<close> never throws; it
  requests the teardown of, and removes, exactly the pool entries whose tenant has a
  subscriber count of 0 and whose \<open>now - lastActivity\<close> is greater than 5 minutes, in pool
  order, and leaves every other entry in place. An entry whose tenant has a subscriber
  count above 0 is in the pool after the tick, however old its \<open>lastActivity\<close>.
\<close>

theorem janitor_tick:
  assumes "distinct (map fst (connections s))"
  shows "checkInactiveConnections throws now s =
           Inr (s\<lparr>upstream := upstream s @
                     map (\<lambda>p. (connection (snd p), DisconnectCalled))
                       (filter (evictable now s) (connections s)),
                 connections := filter (\<lambda>p. \<not> evictable now s p) (connections s)\<rparr>) \<and>
         (\<forall>p. evictable now s p =
               (getClientCount (fst p) s = 0 \<and> now - lastActivity (snd p) > 5 * 60 * 1000)) \<and>
         (\<forall>t e s'. checkInactiveConnections throws now s = Inr s' \<and>
                   map_of (connections s) t = Some e \<and> getClientCount t s > 0 \<longrightarrow>
                   map_of (connections s') t = Some e) \<and>
         cleanupIntervalMs = 60 * 1000"
proof -
  have all: "\<forall>p\<in>set (connections s). map_of (connections s) (fst p) = Some (snd p)"
    using assms by simp
  have r: "checkInactiveConnections throws now s =
           Inr (s\<lparr>upstream := upstream s @
                     map (\<lambda>p. (connection (snd p), DisconnectCalled))
                       (filter (evictable now s) (connections s)),
                 connections := filter (\<lambda>p. \<not> evictable now s p) (connections s)\<rparr>)"
    unfolding checkInactiveConnections_def
    by (simp only: sweep_result [OF assms all] filter_evicted_keys [OF assms])
  have keep: "map_of (filter (\<lambda>p. \<not> evictable now s p) (connections s)) t = Some e"
    if "map_of (connections s) t = Some e" "getClientCount t s > 0" for t e
  proof -
    from that(1) have "(t, e) \<in> set (connections s)" by (rule map_of_SomeD)
    moreover have "\<not> evictable now s (t, e)" using that(2) by (simp add: evictable_def)
    ultimately have "(t, e) \<in> set (filter (\<lambda>p. \<not> evictable now s p) (connections s))"
      by simp
    moreover have "distinct (map fst (filter (\<lambda>p. \<not> evictable now s p) (connections s)))"
      using assms by (simp add: distinct_map_filter)
    ultimately show ?thesis by simp
  qed
  show ?thesis
    using r keep by (auto simp: evictable_def TIMEOUT_def cleanupIntervalMs_def)
qed

theorem janitor_tick_witness:
  "distinct (map fst (connections three_tenants)) \<and>
   getClientCount ''alice'' three_tenants = 0 \<and>
   getClientCount ''bob'' three_tenants = 2 \<and>
   getClientCount ''carol'' three_tenants = 0 \<and>
   checkInactiveConnections always_throws 400000 three_tenants =
     Inr (three_tenants
           \<lparr>upstream := [(0, DisconnectCalled)],
            connections := [(''bob'', \<lparr>connection = 1, lastActivity = 0\<rparr>),
                            (''carol'', \<lparr>connection = 2, lastActivity = 100000\<rparr>)]\<rparr>)"
proof -
  have d: "distinct (map fst (connections three_tenants))"
    by (simp add: three_tenants_def)
  have c: "getClientCount ''alice'' three_tenants = 0"
          "getClientCount ''bob'' three_tenants = 2"
          "getClientCount ''carol'' three_tenants = 0"
    by (simp_all add: getClientCount_def js_or_num_def three_tenants_def)
  have cs: "connections three_tenants =
              [(''alice'', \<lparr>connection = 0, lastActivity = 0\<rparr>),
               (''bob'', \<lparr>connection = 1, lastActivity = 0\<rparr>),
               (''carol'', \<lparr>connection = 2, lastActivity = 100000\<rparr>)]"
       and us: "upstream three_tenants = []"
    by (simp_all add: three_tenants_def)
  have "checkInactiveConnections always_throws 400000 three_tenants =
     Inr (three_tenants
           \<lparr>upstream := upstream three_tenants @
               map (\<lambda>p. (connection (snd p), DisconnectCalled))
                 (filter (evictable 400000 three_tenants) (connections three_tenants)),
            connections :=
               filter (\<lambda>p. \<not> evictable 400000 three_tenants p) (connections three_tenants)\<rparr>)"
    using conjunct1 [OF janitor_tick [OF d, of always_throws 400000]] .
  then have r: "checkInactiveConnections always_throws 400000 three_tenants =
     Inr (three_tenants
           \<lparr>upstream := [(0, DisconnectCalled)],
            connections := [(''bob'', \<lparr>connection = 1, lastActivity = 0\<rparr>),
                            (''carol'', \<lparr>connection = 2, lastActivity = 100000\<rparr>)]\<rparr>)"
    by (simp add: cs us evictable_def c TIMEOUT_def)
  from d c r show ?thesis by blast
qed

end
